theory Spec2Isabelle
  imports Main
begin

section \<open>Live CCTV server: the stream lifecycle of server.js\<close>

text \<open>
  The server keeps three JavaScript maps (\<^verbatim>\<open>cameras\<close>, \<^verbatim>\<open>ffmpegProcesses\<close>,
  \<^verbatim>\<open>streamClients\<close>) and reacts to HTTP requests, to events of the ffmpeg child
  processes and to events of the WebSocket connections. Node runs every handler to its
  end before the next one starts, so a handler is a function from the state to the
  state, and a run of the server is a list of events.

  The objects the handlers hold references to, the child processes and the WebSockets,
  live in two stores; a reference is the index of the object in its store, and a new
  object is appended. What \<^verbatim>\<open>console.log\<close> prints is not modelled, nor are the
  read-only requests (the camera list, the health check, the viewer page) and the
  shutdown of the server.
\<close>

subsection \<open>Data\<close>

datatype status = Offline | Live

text \<open>The camera object of \<^verbatim>\<open>POST /api/cameras\<close> (lines 32-39).\<close>

record camera =
  cam_id :: string
  cam_name :: string
  rtspUrl :: string
  status :: status
  streamUrl :: string
  createdAt :: string

datatype signal = SIGTERM

text \<open>
  A child process as the server sees it: the \<^verbatim>\<open>cameraId\<close> its handlers were
  registered with (they are closures over the argument of \<^verbatim>\<open>startStream\<close>), the
  input url it was spawned with, the signals \<^verbatim>\<open>kill\<close> has sent to it, and whether
  its \<^verbatim>\<open>close\<close> event has been delivered.
\<close>

record child =
  boundCamera :: string
  inputUrl :: string
  signals :: "signal list"
  closed :: bool

text \<open>
  The \<^verbatim>\<open>readyState\<close> of a WebSocket of the ws library: 0, 1, 2, 3. The source
  compares it with 1.
\<close>

datatype ready_state = CONNECTING | OPEN | CLOSING | CLOSED

text \<open>
  A WebSocket as the server sees it: its ready state, the chunks \<^verbatim>\<open>send\<close> was
  called with, in order, and the \<^verbatim>\<open>cameraId\<close> its \<^verbatim>\<open>close\<close> handler was registered
  with (none for a connection that was rejected before the handler was registered).
\<close>

record websocket =
  readyState :: ready_state
  sent :: "string list"
  wsCamera :: "string option"

text \<open>
  A JavaScript \<^verbatim>\<open>Set\<close> of WebSockets is a list of references in insertion order
  without repetition: \<^verbatim>\<open>add\<close> appends a reference that is not a member yet,
  \<^verbatim>\<open>delete\<close> removes it.
\<close>

definition set_add :: "nat \<Rightarrow> nat list \<Rightarrow> nat list" where
  "set_add w ws = (if w \<in> set ws then ws else ws @ [w])"

definition set_delete :: "nat \<Rightarrow> nat list \<Rightarrow> nat list" where
  "set_delete w ws = removeAll w ws"

record server =
  cameras :: "string \<rightharpoonup> camera"
  ffmpegProcesses :: "string \<rightharpoonup> nat"
  streamClients :: "string \<rightharpoonup> nat list"
  procs :: "child list"
  socks :: "websocket list"

definition init_server :: server where
  "init_server = \<lparr>cameras = Map.empty, ffmpegProcesses = Map.empty,
     streamClients = Map.empty, procs = [], socks = []\<rparr>"

text \<open>
  The error responses of the HTTP handlers, named as the specification names them:
  \<^item> \<open>InvalidInput\<close>: 400, \<^verbatim>\<open>Name and RTSP URL are required\<close>;
  \<^item> \<open>NotFound\<close>: 404, \<^verbatim>\<open>Camera not found\<close>;
  \<^item> \<open>AlreadyRunning\<close>: 400, \<^verbatim>\<open>Stream already active\<close>;
  \<^item> \<open>NotRunning\<close>: 400, \<^verbatim>\<open>Stream not active\<close>;
  \<^item> \<open>StartFailure\<close>: 500, \<^verbatim>\<open>Failed to start stream\<close>, with the message of the
    exception that was caught;
  \<^item> \<open>Uncaught\<close>: the 500 of Express for an exception that leaves a handler.
\<close>

datatype error =
  InvalidInput | NotFound | AlreadyRunning | NotRunning | StartFailure string | Uncaught

text \<open>The success responses: 201 with the camera, and 200 with a message.\<close>

datatype reply = Created camera | Deleted | Started camera | Stopped camera

type_synonym response = "error + reply"

subsection \<open>The WebSocket and child process methods the handlers call\<close>

text \<open>
  \<^verbatim>\<open>ws.close()\<close> starts the closing handshake of an open socket: the ready state
  becomes CLOSING, and the \<^verbatim>\<open>close\<close> event comes later. On a socket that is closing
  or closed it changes nothing.
\<close>

definition ws_close :: "nat \<Rightarrow> websocket list \<Rightarrow> websocket list" where
  "ws_close w ss =
     (if w < length ss \<and> readyState (ss ! w) = OPEN
      then ss[w := (ss ! w)\<lparr>readyState := CLOSING\<rparr>] else ss)"

definition ws_send :: "nat \<Rightarrow> string \<Rightarrow> websocket list \<Rightarrow> websocket list" where
  "ws_send w data ss =
     (if w < length ss then ss[w := (ss ! w)\<lparr>sent := sent (ss ! w) @ [data]\<rparr>] else ss)"

text \<open>\<^verbatim>\<open>clients.forEach((client) => { client.close(); })\<close>\<close>

definition close_clients :: "nat list \<Rightarrow> websocket list \<Rightarrow> websocket list" where
  "close_clients clients ss = fold ws_close clients ss"

text \<open>\<^verbatim>\<open>ffmpeg.kill('SIGTERM')\<close>\<close>

definition kill :: "nat \<Rightarrow> signal \<Rightarrow> child list \<Rightarrow> child list" where
  "kill p sig ps =
     (if p < length ps then ps[p := (ps ! p)\<lparr>signals := signals (ps ! p) @ [sig]\<rparr>] else ps)"

subsection \<open>Stream management functions\<close>

text \<open>
  What \<^verbatim>\<open>spawn\<close> does is the runtime's choice: it throws, or it returns a new child
  process. A failure that the runtime reports after \<^verbatim>\<open>spawn\<close> has returned arrives
  as the \<^verbatim>\<open>error\<close> event of the child.
\<close>

datatype spawn_result = SpawnThrows string | SpawnReturns

text \<open>
  \<^verbatim>\<open>startStream\<close> (lines 117-172): \<open>Inl\<close> is the exception that leaves the function
  when \<^verbatim>\<open>spawn\<close> throws, before any map is written. Otherwise the new child is
  recorded under the camera and the camera's client set is replaced by a new empty set.
\<close>

definition startStream :: "string \<Rightarrow> string \<Rightarrow> spawn_result \<Rightarrow> server \<Rightarrow> string + server" where
  "startStream cameraId url sp s =
     (case sp of
        SpawnThrows msg \<Rightarrow> Inl msg
      | SpawnReturns \<Rightarrow>
          (let ffmpeg = length (procs s) in
           Inr (s\<lparr>procs := procs s @
                    [\<lparr>boundCamera = cameraId, inputUrl = url, signals = [], closed = False\<rparr>],
                  ffmpegProcesses := (ffmpegProcesses s)(cameraId \<mapsto> ffmpeg),
                  streamClients := (streamClients s)(cameraId \<mapsto> [])\<rparr>)))"

text \<open>\<^verbatim>\<open>stopStream\<close> (lines 174-189).\<close>

definition stopStream :: "string \<Rightarrow> server \<Rightarrow> server" where
  "stopStream cameraId s =
     (let s1 = (case ffmpegProcesses s cameraId of
                  None \<Rightarrow> s
                | Some ffmpeg \<Rightarrow>
                    s\<lparr>procs := kill ffmpeg SIGTERM (procs s),
                      ffmpegProcesses := (ffmpegProcesses s)(cameraId := None)\<rparr>)
      in (case streamClients s1 cameraId of
            None \<Rightarrow> s1
          | Some clients \<Rightarrow>
              s1\<lparr>socks := close_clients clients (socks s1),
                 streamClients := (streamClients s1)(cameraId := None)\<rparr>))"

text \<open>
  The handler of the child's stdout \<^verbatim>\<open>data\<close> event (lines 132-142): the chunk is
  sent to every client of the camera whose ready state is 1.
\<close>

definition on_data :: "string \<Rightarrow> string \<Rightarrow> server \<Rightarrow> server" where
  "on_data cameraId data s =
     (case streamClients s cameraId of
        None \<Rightarrow> s
      | Some clients \<Rightarrow>
          s\<lparr>socks := fold (\<lambda>client ss.
                 if readyState (ss ! client) = OPEN then ws_send client data ss else ss)
               clients (socks s)\<rparr>)"

text \<open>The handler of the child's \<^verbatim>\<open>close\<close> event (lines 148-167).\<close>

definition on_close :: "string \<Rightarrow> server \<Rightarrow> server" where
  "on_close cameraId s =
     (let s1 = s\<lparr>ffmpegProcesses := (ffmpegProcesses s)(cameraId := None)\<rparr>;
          s2 = (case cameras s1 cameraId of
                  None \<Rightarrow> s1
                | Some camera \<Rightarrow>
                    s1\<lparr>cameras := (cameras s1)(cameraId \<mapsto> camera\<lparr>status := Offline\<rparr>)\<rparr>)
      in (case streamClients s2 cameraId of
            None \<Rightarrow> s2
          | Some clients \<Rightarrow>
              s2\<lparr>socks := close_clients clients (socks s2),
                 streamClients := (streamClients s2)(cameraId := None)\<rparr>))"

text \<open>The handler of the child's \<^verbatim>\<open>error\<close> event (lines 169-171) only logs.\<close>

definition on_error :: "string \<Rightarrow> server \<Rightarrow> server" where
  "on_error cameraId s = s"

subsection \<open>HTTP handlers\<close>

text \<open>
  \<^verbatim>\<open>!x\<close> for a field of the request body that is a string or is missing
  (\<open>None\<close>): true when it is missing or empty.
\<close>

definition falsy :: "string option \<Rightarrow> bool" where
  "falsy x = (case x of None \<Rightarrow> True | Some v \<Rightarrow> v = [])"

definition viewerPath :: "string \<Rightarrow> string" where
  "viewerPath ident = ''/live/'' @ ident"

text \<open>
  \<^verbatim>\<open>POST /api/cameras\<close> (lines 24-44). \<open>uuid\<close> is what \<^verbatim>\<open>uuidv4()\<close> returns
  and \<open>now\<close> what \<^verbatim>\<open>new Date().toISOString()\<close> returns; both come from outside
  the program. The two fields are read with \<open>the\<close> only where both have passed
  the test, so both are present.
\<close>

definition post_cameras ::
  "string option \<Rightarrow> string option \<Rightarrow> string \<Rightarrow> string \<Rightarrow> server \<Rightarrow> response \<times> server" where
  "post_cameras name url uuid now s =
     (if falsy name \<or> falsy url then (Inl InvalidInput, s)
      else
        (let camera = \<lparr>cam_id = uuid, cam_name = the name, rtspUrl = the url,
               status = Offline, streamUrl = viewerPath uuid, createdAt = now\<rparr>
         in (Inr (Created camera), s\<lparr>cameras := (cameras s)(uuid \<mapsto> camera)\<rparr>)))"

text \<open>\<^verbatim>\<open>DELETE /api/cameras/:id\<close> (lines 53-67).\<close>

definition delete_camera :: "string \<Rightarrow> server \<Rightarrow> response \<times> server" where
  "delete_camera ident s =
     (if cameras s ident = None then (Inl NotFound, s)
      else
        (let s1 = (if ffmpegProcesses s ident \<noteq> None then stopStream ident s else s)
         in (Inr Deleted, s1\<lparr>cameras := (cameras s1)(ident := None)\<rparr>)))"

text \<open>\<^verbatim>\<open>POST /api/cameras/:id/start\<close> (lines 70-92).\<close>

definition post_start :: "string \<Rightarrow> spawn_result \<Rightarrow> server \<Rightarrow> response \<times> server" where
  "post_start ident sp s =
     (case cameras s ident of
        None \<Rightarrow> (Inl NotFound, s)
      | Some camera \<Rightarrow>
          if ffmpegProcesses s ident \<noteq> None then (Inl AlreadyRunning, s)
          else
            (case startStream ident (rtspUrl camera) sp s of
               Inl msg \<Rightarrow> (Inl (StartFailure msg), s)
             | Inr s1 \<Rightarrow>
                 (let camera1 = camera\<lparr>status := Live\<rparr>
                  in (Inr (Started camera1),
                      s1\<lparr>cameras := (cameras s1)(ident \<mapsto> camera1)\<rparr>))))"

text \<open>
  \<^verbatim>\<open>POST /api/cameras/:id/stop\<close> (lines 95-113). The camera is read from the
  registry after \<^verbatim>\<open>stopStream\<close> has run; were it missing there, the assignment to
  its status would throw.
\<close>

definition post_stop :: "string \<Rightarrow> server \<Rightarrow> response \<times> server" where
  "post_stop ident s =
     (if cameras s ident = None then (Inl NotFound, s)
      else if ffmpegProcesses s ident = None then (Inl NotRunning, s)
      else
        (let s1 = stopStream ident s in
         case cameras s1 ident of
           None \<Rightarrow> (Inl Uncaught, s1)
         | Some camera0 \<Rightarrow>
             (let camera = camera0\<lparr>status := Offline\<rparr>
              in (Inr (Stopped camera), s1\<lparr>cameras := (cameras s1)(ident \<mapsto> camera)\<rparr>))))"

subsection \<open>WebSocket handlers\<close>

text \<open>
  The \<^verbatim>\<open>connection\<close> handler (lines 192-220). The new socket is open. \<open>q\<close> is the
  \<^verbatim>\<open>cameraId\<close> parameter of the url, \<open>None\<close> when the url has none; an empty
  parameter is falsy as well. A rejected socket is closed with code 1008 and gets no
  handlers. The client set that \<^verbatim>\<open>add\<close> is called on exists: it is read right after
  the line that creates a missing one.
\<close>

definition on_connection :: "string option \<Rightarrow> server \<Rightarrow> server" where
  "on_connection q s =
     (let ws = length (socks s);
          rejected = s\<lparr>socks := ws_close ws
                       (socks s @ [\<lparr>readyState = OPEN, sent = [], wsCamera = None\<rparr>])\<rparr>
      in case q of
           None \<Rightarrow> rejected
         | Some cameraId \<Rightarrow>
             if cameraId = [] \<or> cameras s cameraId = None then rejected
             else
               (let s1 = s\<lparr>socks := socks s @
                           [\<lparr>readyState = OPEN, sent = [], wsCamera = Some cameraId\<rparr>]\<rparr>;
                    s2 = (if streamClients s1 cameraId = None
                          then s1\<lparr>streamClients := (streamClients s1)(cameraId \<mapsto> [])\<rparr>
                          else s1)
                in s2\<lparr>streamClients :=
                        (streamClients s2)
                          (cameraId \<mapsto> set_add ws (the (streamClients s2 cameraId)))\<rparr>))"

text \<open>The handler of a socket's \<^verbatim>\<open>close\<close> event (lines 209-215).\<close>

definition on_ws_close :: "string \<Rightarrow> nat \<Rightarrow> server \<Rightarrow> server" where
  "on_ws_close cameraId ws s =
     (case streamClients s cameraId of
        None \<Rightarrow> s
      | Some clients \<Rightarrow>
          s\<lparr>streamClients := (streamClients s)(cameraId \<mapsto> set_delete ws clients)\<rparr>)"

subsection \<open>Events and runs\<close>

text \<open>
  The events the server handles, one handler run each:
  \<^item> the four HTTP requests that change state;
  \<^item> \<open>Connect q\<close>: a WebSocket connection with url parameter \<open>q\<close>;
  \<^item> \<open>SockClosing w\<close>: the close handshake of socket \<open>w\<close> has begun on the peer's
    side; the ws library sets the ready state to CLOSING and no handler of server.js runs;
  \<^item> \<open>SockClose w\<close>: the \<^verbatim>\<open>close\<close> event of socket \<open>w\<close>;
  \<^item> \<open>StdoutData p d\<close>, \<open>StderrData p d\<close>, \<open>ProcError p\<close>, \<open>ProcClose p\<close>: the
    \<^verbatim>\<open>data\<close>, \<^verbatim>\<open>error\<close> and \<^verbatim>\<open>close\<close> events of child \<open>p\<close>.
  An event of an object that does not exist, or after its \<^verbatim>\<open>close\<close> event, does not
  happen: the state is unchanged.
\<close>

datatype event =
    Create "string option" "string option" string string
  | Delete string
  | Start string spawn_result
  | Stop string
  | Connect "string option"
  | SockClosing nat
  | SockClose nat
  | StdoutData nat string
  | StderrData nat string
  | ProcError nat
  | ProcClose nat

fun step :: "event \<Rightarrow> server \<Rightarrow> server" where
  "step (Create name url uuid now) s = snd (post_cameras name url uuid now s)"
| "step (Delete ident) s = snd (delete_camera ident s)"
| "step (Start ident sp) s = snd (post_start ident sp s)"
| "step (Stop ident) s = snd (post_stop ident s)"
| "step (Connect q) s = on_connection q s"
| "step (SockClosing w) s =
     (if w < length (socks s) \<and> readyState (socks s ! w) = OPEN
      then s\<lparr>socks := (socks s)[w := (socks s ! w)\<lparr>readyState := CLOSING\<rparr>]\<rparr> else s)"
| "step (SockClose w) s =
     (if w < length (socks s) \<and> readyState (socks s ! w) \<noteq> CLOSED
      then (let s1 = s\<lparr>socks := (socks s)[w := (socks s ! w)\<lparr>readyState := CLOSED\<rparr>]\<rparr>
            in (case wsCamera (socks s ! w) of
                  None \<Rightarrow> s1
                | Some cameraId \<Rightarrow> on_ws_close cameraId w s1))
      else s)"
| "step (StdoutData p d) s =
     (if p < length (procs s) \<and> \<not> closed (procs s ! p)
      then on_data (boundCamera (procs s ! p)) d s else s)"
| "step (StderrData p d) s = s"
| "step (ProcError p) s =
     (if p < length (procs s) \<and> \<not> closed (procs s ! p)
      then on_error (boundCamera (procs s ! p)) s else s)"
| "step (ProcClose p) s =
     (if p < length (procs s) \<and> \<not> closed (procs s ! p)
      then on_close (boundCamera (procs s ! p))
             (s\<lparr>procs := (procs s)[p := (procs s ! p)\<lparr>closed := True\<rparr>]\<rparr>)
      else s)"

definition run :: "event list \<Rightarrow> server \<Rightarrow> server" where
  "run evs s = fold step evs s"

text \<open>
  \<^verbatim>\<open>uuidv4()\<close> is taken to return an identifier that no camera of the registry has:
  the handler does not check it. \<open>uuids_fresh s evs\<close> says so for every
  \<open>Create\<close> of \<open>evs\<close> that reaches the call, in the run from \<open>s\<close>.
\<close>

fun uuids_fresh :: "server \<Rightarrow> event list \<Rightarrow> bool" where
  "uuids_fresh s [] = True"
| "uuids_fresh s (e # es) =
     ((case e of
         Create name url uuid now \<Rightarrow>
           (if falsy name \<or> falsy url then True else cameras s uuid = None)
       | _ \<Rightarrow> True)
      \<and> uuids_fresh (step e s) es)"

subsection \<open>Invariants of the three maps\<close>

text \<open>
  An identifier has a process entry exactly when the registry holds a camera for it
  whose status is \<open>Live\<close>. For an identifier with no camera this says that it has
  no process entry.
\<close>

definition entry_ok :: "server \<Rightarrow> string \<Rightarrow> bool" where
  "entry_ok s ident =
     ((ffmpegProcesses s ident \<noteq> None) = (map_option status (cameras s ident) = Some Live))"

definition status_tracks_entries :: "server \<Rightarrow> bool" where
  "status_tracks_entries s = (\<forall>ident. entry_ok s ident)"

text \<open>No client set holds a socket twice, as a JavaScript \<^verbatim>\<open>Set\<close> does not.\<close>

definition subscribers_distinct :: "server \<Rightarrow> bool" where
  "subscribers_distinct s = (\<forall>ident clients. streamClients s ident = Some clients \<longrightarrow> distinct clients)"

text \<open>
  Every process entry refers to a child of the process store, and every member of a
  client set to a socket of the socket store.
\<close>

definition handles_valid :: "server \<Rightarrow> bool" where
  "handles_valid s =
     ((\<forall>ident p. ffmpegProcesses s ident = Some p \<longrightarrow> p < length (procs s))
      \<and> (\<forall>ident clients w. streamClients s ident = Some clients \<longrightarrow> w \<in> set clients \<longrightarrow>
            w < length (socks s)))"

subsection \<open>Example runs\<close>

text \<open>
  One camera, \<open>A\<close>: the record \<^verbatim>\<open>POST /api/cameras\<close> stores for it, the server
  after a viewer connected to it before any stream was started, the server with its
  stream running and two viewers connected, the same when the first viewer's socket
  has begun to close, and a run in which the stream is stopped, started again, and the
  first child's \<^verbatim>\<open>close\<close> event arrives late.
\<close>

definition door :: camera where
  "door = \<lparr>cam_id = ''A'', cam_name = ''Door'', rtspUrl = ''rtsp://x'', status = Offline,
     streamUrl = ''/live/A'', createdAt = ''t0''\<rparr>"

definition door_waiting :: server where
  "door_waiting = run [Create (Some ''Door'') (Some ''rtsp://x'') ''A'' ''t0'',
     Connect (Some ''A'')] init_server"

definition door_live :: server where
  "door_live = run [Create (Some ''Door'') (Some ''rtsp://x'') ''A'' ''t0'',
     Start ''A'' SpawnReturns, Connect (Some ''A''), Connect (Some ''A'')] init_server"

definition door_closing :: server where
  "door_closing = step (SockClosing 0) door_live"

definition door_restarts :: "event list" where
  "door_restarts = [Create (Some ''Door'') (Some ''rtsp://x'') ''A'' ''t0'',
     Start ''A'' SpawnReturns, Stop ''A'', Start ''A'' SpawnReturns, ProcClose 0,
     Start ''A'' SpawnReturns]"

section \<open>Properties\<close>

subsection \<open>Evaluating the example runs\<close>

lemmas handler_defs = post_cameras_def delete_camera_def post_start_def post_stop_def
  startStream_def stopStream_def on_data_def on_close_def on_error_def on_connection_def
  on_ws_close_def falsy_def viewerPath_def set_add_def set_delete_def ws_close_def
  ws_send_def close_clients_def kill_def Let_def

lemma door_waiting_eq:
  "door_waiting = \<lparr>cameras = [''A'' \<mapsto> door], ffmpegProcesses = Map.empty,
     streamClients = [''A'' \<mapsto> [0]], procs = [],
     socks = [\<lparr>readyState = OPEN, sent = [], wsCamera = Some ''A''\<rparr>]\<rparr>"
  by (simp add: door_waiting_def door_def run_def init_server_def handler_defs)

lemma door_live_eq:
  "door_live = \<lparr>cameras = [''A'' \<mapsto> door\<lparr>status := Live\<rparr>], ffmpegProcesses = [''A'' \<mapsto> 0],
     streamClients = [''A'' \<mapsto> [0, 1]],
     procs = [\<lparr>boundCamera = ''A'', inputUrl = ''rtsp://x'', signals = [], closed = False\<rparr>],
     socks = [\<lparr>readyState = OPEN, sent = [], wsCamera = Some ''A''\<rparr>,
              \<lparr>readyState = OPEN, sent = [], wsCamera = Some ''A''\<rparr>]\<rparr>"
  by (simp add: door_live_def door_def run_def init_server_def handler_defs)

lemma door_closing_eq:
  "door_closing = \<lparr>cameras = [''A'' \<mapsto> door\<lparr>status := Live\<rparr>], ffmpegProcesses = [''A'' \<mapsto> 0],
     streamClients = [''A'' \<mapsto> [0, 1]],
     procs = [\<lparr>boundCamera = ''A'', inputUrl = ''rtsp://x'', signals = [], closed = False\<rparr>],
     socks = [\<lparr>readyState = CLOSING, sent = [], wsCamera = Some ''A''\<rparr>,
              \<lparr>readyState = OPEN, sent = [], wsCamera = Some ''A''\<rparr>]\<rparr>"
  by (simp add: door_closing_def door_live_eq)

subsection \<open>What the socket and process methods do\<close>

lemma length_ws_close [simp]: "length (ws_close w ss) = length ss"
  by (simp add: ws_close_def)

lemma length_close_clients [simp]: "length (close_clients ws ss) = length ss"
  unfolding close_clients_def by (induction ws arbitrary: ss) simp_all

lemma ws_close_nth:
  "v < length ss \<Longrightarrow>
   ws_close w ss ! v =
     (if v = w \<and> readyState (ss ! v) = OPEN then (ss ! v)\<lparr>readyState := CLOSING\<rparr> else ss ! v)"
  by (auto simp add: ws_close_def nth_list_update)

text \<open>Closing a set of clients touches exactly its open members.\<close>

lemma close_clients_nth:
  "v < length ss \<Longrightarrow>
   close_clients ws ss ! v =
     (if v \<in> set ws \<and> readyState (ss ! v) = OPEN
      then (ss ! v)\<lparr>readyState := CLOSING\<rparr> else ss ! v)"
proof (induction ws arbitrary: ss)
  case Nil
  then show ?case by (simp add: close_clients_def)
next
  case (Cons w ws)
  have "close_clients (w # ws) ss = close_clients ws (ws_close w ss)"
    by (simp add: close_clients_def)
  moreover have "v < length (ws_close w ss)" using Cons.prems by simp
  ultimately show ?case
    using Cons.IH [of "ws_close w ss"] Cons.prems by (auto simp: ws_close_nth)
qed

lemma close_clients_not_open:
  "v \<in> set ws \<Longrightarrow> v < length ss \<Longrightarrow> readyState (close_clients ws ss ! v) \<noteq> OPEN"
  by (simp add: close_clients_nth)

lemma kill_signals:
  "p < length ps \<Longrightarrow> signals (kill p sig ps ! p) = signals (ps ! p) @ [sig]"
  by (simp add: kill_def)

text \<open>The broadcast loop of the \<^verbatim>\<open>data\<close> handler, socket by socket.\<close>

lemma broadcast_nth:
  assumes "distinct ws" and "v < length ss"
  shows "fold (\<lambda>client ss.
            if readyState (ss ! client) = OPEN then ws_send client data ss else ss) ws ss ! v =
         (if v \<in> set ws \<and> readyState (ss ! v) = OPEN
          then (ss ! v)\<lparr>sent := sent (ss ! v) @ [data]\<rparr> else ss ! v)"
  using assms
proof (induction ws arbitrary: ss)
  case Nil
  then show ?case by simp
next
  case (Cons w ws)
  let ?ss = "if readyState (ss ! w) = OPEN then ws_send w data ss else ss"
  have len: "v < length ?ss" using Cons.prems by (simp add: ws_send_def)
  have d: "distinct ws" and nw: "w \<notin> set ws" using Cons.prems by simp_all
  have first: "?ss ! v = (if v = w \<and> readyState (ss ! v) = OPEN
      then (ss ! v)\<lparr>sent := sent (ss ! v) @ [data]\<rparr> else ss ! v)"
    using Cons.prems by (auto simp: ws_send_def nth_list_update)
  show ?case
    using Cons.IH [OF d len] first nw by auto
qed

lemma broadcast_length:
  "length (fold (\<lambda>client ss.
      if readyState (ss ! client) = OPEN then ws_send client data ss else ss) ws ss) = length ss"
  by (induction ws arbitrary: ss) (simp_all add: ws_send_def)

subsection \<open>What each handler does to each map\<close>

lemma stopStream_cameras [simp]: "cameras (stopStream i s) = cameras s"
  by (simp add: stopStream_def Let_def split: option.splits)

lemma stopStream_ffmpegProcesses [simp]:
  "ffmpegProcesses (stopStream i s) = (ffmpegProcesses s)(i := None)"
  by (auto simp add: stopStream_def Let_def split: option.splits)

lemma stopStream_streamClients [simp]:
  "streamClients (stopStream i s) = (streamClients s)(i := None)"
  by (auto simp add: stopStream_def Let_def split: option.splits)

lemma stopStream_procs:
  "procs (stopStream i s) =
     (case ffmpegProcesses s i of None \<Rightarrow> procs s | Some p \<Rightarrow> kill p SIGTERM (procs s))"
  by (simp add: stopStream_def Let_def split: option.splits)

lemma stopStream_socks:
  "socks (stopStream i s) =
     (case streamClients s i of None \<Rightarrow> socks s
      | Some clients \<Rightarrow> close_clients clients (socks s))"
  by (simp add: stopStream_def Let_def split: option.splits)

lemma on_close_ffmpegProcesses [simp]:
  "ffmpegProcesses (on_close i s) = (ffmpegProcesses s)(i := None)"
  by (simp add: on_close_def Let_def split: option.splits)

lemma on_close_cameras [simp]:
  "cameras (on_close i s) =
     (case cameras s i of None \<Rightarrow> cameras s
      | Some c \<Rightarrow> (cameras s)(i \<mapsto> c\<lparr>status := Offline\<rparr>))"
  by (simp add: on_close_def Let_def split: option.splits)

lemma on_close_socks:
  "socks (on_close i s) =
     (case streamClients s i of None \<Rightarrow> socks s
      | Some clients \<Rightarrow> close_clients clients (socks s))"
  by (simp add: on_close_def Let_def split: option.splits)

lemma on_close_streamClients [simp]:
  "streamClients (on_close i s) = (streamClients s)(i := None)"
  by (auto simp add: on_close_def Let_def split: option.splits)

lemma on_data_cameras [simp]: "cameras (on_data i d s) = cameras s"
  and on_data_ffmpegProcesses [simp]: "ffmpegProcesses (on_data i d s) = ffmpegProcesses s"
  and on_data_streamClients [simp]: "streamClients (on_data i d s) = streamClients s"
  by (simp_all add: on_data_def split: option.splits)

lemma on_connection_cameras [simp]: "cameras (on_connection q s) = cameras s"
  and on_connection_ffmpegProcesses [simp]:
    "ffmpegProcesses (on_connection q s) = ffmpegProcesses s"
  by (simp_all add: on_connection_def Let_def split: option.splits)

lemma on_ws_close_cameras [simp]: "cameras (on_ws_close i w s) = cameras s"
  and on_ws_close_ffmpegProcesses [simp]:
    "ffmpegProcesses (on_ws_close i w s) = ffmpegProcesses s"
  by (simp_all add: on_ws_close_def split: option.splits)

subsection \<open>The status of a camera and its process entry\<close>

lemma entry_ok_cong:
  "cameras t = cameras s \<Longrightarrow> ffmpegProcesses t = ffmpegProcesses s \<Longrightarrow>
   entry_ok t j = entry_ok s j"
  by (simp add: entry_ok_def)

lemma create_entry_ok:
  assumes "entry_ok s j" and "falsy name \<or> falsy url \<or> cameras s uuid = None"
    and "entry_ok s uuid"
  shows "entry_ok (snd (post_cameras name url uuid now s)) j"
  using assms by (auto simp: entry_ok_def post_cameras_def Let_def split: option.splits)

lemma delete_entry_ok:
  assumes "entry_ok s j"
  shows "entry_ok (snd (delete_camera i s)) j"
  using assms by (auto simp: entry_ok_def delete_camera_def Let_def split: option.splits)

lemma start_entry_ok:
  assumes "entry_ok s j"
  shows "entry_ok (snd (post_start i sp s)) j"
  using assms
  by (auto simp: entry_ok_def post_start_def startStream_def Let_def
      split: option.splits spawn_result.splits)

lemma stop_entry_ok:
  assumes "entry_ok s j"
  shows "entry_ok (snd (post_stop i s)) j"
  using assms by (auto simp: entry_ok_def post_stop_def Let_def split: option.splits)

lemma on_close_entry_ok:
  assumes "entry_ok s j"
  shows "entry_ok (on_close i s) j"
  using assms by (auto simp: entry_ok_def split: option.splits)

lemma step_entry_ok:
  assumes "status_tracks_entries s" and "uuids_fresh s [e]"
  shows "entry_ok (step e s) j"
proof -
  have ok: "entry_ok s k" for k
    using assms(1) by (simp add: status_tracks_entries_def)
  show ?thesis
  proof (cases e)
    case (Create name url uuid now)
    with assms(2) have "falsy name \<or> falsy url \<or> cameras s uuid = None"
      by (auto split: if_splits)
    with Create show ?thesis
      by (simp add: create_entry_ok ok)
  next
    case (Delete i)
    then show ?thesis by (simp add: delete_entry_ok ok)
  next
    case (Start i sp)
    then show ?thesis by (simp add: start_entry_ok ok)
  next
    case (Stop i)
    then show ?thesis by (simp add: stop_entry_ok ok)
  next
    case (Connect q)
    then show ?thesis by (simp add: entry_ok_cong [of _ s] ok)
  next
    case (SockClosing w)
    then show ?thesis by (simp add: entry_ok_cong [of _ s] ok)
  next
    case (SockClose w)
    then show ?thesis
      by (simp add: entry_ok_cong [of _ s] ok Let_def split: option.splits)
  next
    case (StdoutData p d)
    then show ?thesis by (simp add: entry_ok_cong [of _ s] ok)
  next
    case (StderrData p d)
    then show ?thesis by (simp add: ok)
  next
    case (ProcError p)
    then show ?thesis by (simp add: on_error_def ok)
  next
    case (ProcClose p)
    have "entry_ok (s\<lparr>procs := ps\<rparr>) j" for ps
      using ok [of j] by (simp add: entry_ok_def)
    with ProcClose show ?thesis by (simp add: on_close_entry_ok ok)
  qed
qed

lemma run_status_tracks_entries:
  "status_tracks_entries s \<Longrightarrow> uuids_fresh s evs \<Longrightarrow> status_tracks_entries (run evs s)"
proof (induction evs arbitrary: s)
  case Nil
  then show ?case by (simp add: run_def)
next
  case (Cons e evs)
  from Cons.prems have "uuids_fresh s [e]" by simp
  with Cons.prems(1) have "status_tracks_entries (step e s)"
    unfolding status_tracks_entries_def [of "step e s"] using step_entry_ok by blast
  moreover from Cons.prems have "uuids_fresh (step e s) evs" by simp
  ultimately have "status_tracks_entries (run evs (step e s))" by (rule Cons.IH)
  then show ?case by (simp add: run_def)
qed

lemma init_status_tracks_entries: "status_tracks_entries init_server"
  by (simp add: status_tracks_entries_def entry_ok_def init_server_def)

subsection \<open>Client sets hold no socket twice\<close>

lemma step_subscribers_distinct:
  assumes "subscribers_distinct s"
  shows "subscribers_distinct (step e s)"
proof -
  have d: "distinct clients" if "streamClients s i = Some clients" for i clients
    using assms that by (auto simp: subscribers_distinct_def)
  show ?thesis
  proof (cases e)
    case (Create name url uuid now)
    then show ?thesis
      using d by (auto simp: subscribers_distinct_def post_cameras_def Let_def)
  next
    case (Delete i)
    then show ?thesis
      using d by (auto simp: subscribers_distinct_def delete_camera_def Let_def split: if_splits)
  next
    case (Start i sp)
    then show ?thesis
      using d
      by (auto simp: subscribers_distinct_def post_start_def startStream_def Let_def
          split: option.splits spawn_result.splits if_splits)
  next
    case (Stop i)
    then show ?thesis
      using d
      by (auto simp: subscribers_distinct_def post_stop_def Let_def
          split: option.splits if_splits)
  next
    case (Connect q)
    then show ?thesis
      using d
      by (auto simp: subscribers_distinct_def on_connection_def set_add_def Let_def
          split: option.splits if_splits)
  next
    case (SockClosing w)
    then show ?thesis
      using d by (auto simp: subscribers_distinct_def)
  next
    case (SockClose w)
    then show ?thesis
      using d
      by (auto simp: subscribers_distinct_def on_ws_close_def set_delete_def Let_def
          distinct_removeAll split: option.splits if_splits)
  next
    case (StdoutData p x)
    then show ?thesis
      using d by (auto simp: subscribers_distinct_def)
  next
    case (StderrData p x)
    then show ?thesis
      using assms by simp
  next
    case (ProcError p)
    then show ?thesis
      using assms by (simp add: on_error_def)
  next
    case (ProcClose p)
    then show ?thesis
      using d by (auto simp: subscribers_distinct_def split: if_splits)
  qed
qed

lemma run_subscribers_distinct:
  "subscribers_distinct s \<Longrightarrow> subscribers_distinct (run evs s)"
  unfolding run_def by (induction evs arbitrary: s) (simp_all add: step_subscribers_distinct)

lemma init_subscribers_distinct: "subscribers_distinct init_server"
  by (simp add: subscribers_distinct_def init_server_def)

subsection \<open>References point into the stores\<close>

lemma length_kill [simp]: "length (kill p sig ps) = length ps"
  by (simp add: kill_def)

lemma length_procs_stopStream [simp]: "length (procs (stopStream i s)) = length (procs s)"
  by (simp add: stopStream_procs split: option.splits)

lemma length_socks_stopStream [simp]: "length (socks (stopStream i s)) = length (socks s)"
  by (simp add: stopStream_socks split: option.splits)

lemma procs_on_close [simp]: "procs (on_close i s) = procs s"
  by (simp add: on_close_def Let_def split: option.splits)

lemma length_socks_on_close [simp]: "length (socks (on_close i s)) = length (socks s)"
  by (simp add: on_close_def Let_def split: option.splits)

lemma procs_on_data [simp]: "procs (on_data i d s) = procs s"
  by (simp add: on_data_def split: option.splits)

lemma length_socks_on_data [simp]: "length (socks (on_data i d s)) = length (socks s)"
  by (simp add: on_data_def broadcast_length split: option.splits)

lemma step_handles_valid:
  assumes "handles_valid s"
  shows "handles_valid (step e s)"
proof -
  have pv: "p < length (procs s)" if "ffmpegProcesses s i = Some p" for i p
    using assms that by (auto simp: handles_valid_def)
  have wv: "w < length (socks s)" if "streamClients s i = Some clients" "w \<in> set clients"
    for i clients w
    using assms that by (auto simp: handles_valid_def)
  show ?thesis
  proof (cases e)
    case (Create name url uuid now)
    then show ?thesis
      using pv wv by (auto simp: handles_valid_def post_cameras_def Let_def)
  next
    case (Delete i)
    then show ?thesis
      using pv wv by (auto simp: handles_valid_def delete_camera_def Let_def split: if_splits)
  next
    case (Start i sp)
    then show ?thesis
      using pv wv
      by (auto simp: handles_valid_def post_start_def startStream_def Let_def less_Suc_eq
          split: option.splits spawn_result.splits if_splits)
  next
    case (Stop i)
    then show ?thesis
      using pv wv
      by (auto simp: handles_valid_def post_stop_def Let_def split: option.splits if_splits)
  next
    case (Connect q)
    then show ?thesis
      using pv wv
      by (auto simp: handles_valid_def on_connection_def set_add_def Let_def less_Suc_eq
          split: option.splits if_splits)
  next
    case (SockClosing w)
    then show ?thesis
      using pv wv by (auto simp: handles_valid_def)
  next
    case (SockClose w)
    then show ?thesis
      using pv wv
      by (auto simp: handles_valid_def on_ws_close_def set_delete_def Let_def
          split: option.splits if_splits)
  next
    case (StdoutData p x)
    then show ?thesis
      using pv wv by (auto simp: handles_valid_def)
  next
    case (StderrData p x)
    then show ?thesis
      using assms by simp
  next
    case (ProcError p)
    then show ?thesis
      using assms by (simp add: on_error_def)
  next
    case (ProcClose p)
    then show ?thesis
      using pv wv by (auto simp: handles_valid_def split: if_splits)
  qed
qed

lemma run_handles_valid: "handles_valid s \<Longrightarrow> handles_valid (run evs s)"
  unfolding run_def by (induction evs arbitrary: s) (simp_all add: step_handles_valid)

lemma init_handles_valid: "handles_valid init_server"
  by (simp add: handles_valid_def init_server_def)

text \<open>In a run from the empty server, a process entry belongs to a live camera.\<close>

lemma entry_has_live_camera:
  assumes "uuids_fresh init_server evs"
    and "ffmpegProcesses (run evs init_server) ident = Some p"
  shows "\<exists>c. cameras (run evs init_server) ident = Some c \<and> status c = Live"
proof -
  have "status_tracks_entries (run evs init_server)"
    using init_status_tracks_entries assms(1) by (rule run_status_tracks_entries)
  then have "entry_ok (run evs init_server) ident"
    by (simp add: status_tracks_entries_def)
  with assms(2) show ?thesis by (auto simp add: entry_ok_def)
qed

subsection \<open>The claims\<close>

text \<open>
  C1. After any sequence of events, handled from the empty server, every camera of the
  registry has status LIVE if and only if a process entry exists for its identifier.
  The events are the create, start, stop and delete requests, the termination of any
  child (also a late one, of a stream that was stopped and started again), and the
  connection, data and error events between them. The identifiers \<^verbatim>\<open>uuidv4()\<close>
  hands out are assumed fresh.
\<close>

theorem live_iff_entry:
  assumes "uuids_fresh init_server evs"
    and "cameras (run evs init_server) ident = Some c"
  shows "(status c = Live) = (ffmpegProcesses (run evs init_server) ident \<noteq> None)"
proof -
  have "status_tracks_entries (run evs init_server)"
    using init_status_tracks_entries assms(1) by (rule run_status_tracks_entries)
  then have "entry_ok (run evs init_server) ident"
    by (simp add: status_tracks_entries_def)
  with assms(2) show ?thesis by (auto simp add: entry_ok_def)
qed

text \<open>
  The run \<open>door_restarts\<close>: the stream is stopped and started again, the first
  child's \<^verbatim>\<open>close\<close> event then removes the entry of the second child and sets the
  status to OFFLINE, and a third start makes the camera LIVE with the third child.
\<close>

theorem live_iff_entry_witness:
  "uuids_fresh init_server door_restarts
   \<and> cameras (run door_restarts init_server) ''A'' = Some (door\<lparr>status := Live\<rparr>)
   \<and> ffmpegProcesses (run door_restarts init_server) ''A'' = Some 2
   \<and> (status (door\<lparr>status := Live\<rparr>) = Live)
       = (ffmpegProcesses (run door_restarts init_server) ''A'' \<noteq> None)"
proof -
  have fresh: "uuids_fresh init_server door_restarts"
    by (simp add: door_restarts_def init_server_def handler_defs)
  have cam: "cameras (run door_restarts init_server) ''A'' = Some (door\<lparr>status := Live\<rparr>)"
    by (simp add: door_restarts_def door_def run_def init_server_def handler_defs)
  have ent: "ffmpegProcesses (run door_restarts init_server) ''A'' = Some 2"
    by (simp add: door_restarts_def run_def init_server_def handler_defs)
  from live_iff_entry [OF fresh cam] fresh cam ent show ?thesis by simp
qed

text \<open>
  The equivalence is between the status and the entry of the process map, not the
  child itself: after the late \<^verbatim>\<open>close\<close> event of the first child, the camera is
  OFFLINE and has no entry, while the second child was sent no signal and has not
  closed.
\<close>

lemma late_close_leaves_child_running:
  "map_option status (cameras (run [Create (Some ''Door'') (Some ''rtsp://x'') ''A'' ''t0'',
       Start ''A'' SpawnReturns, Stop ''A'', Start ''A'' SpawnReturns, ProcClose 0]
       init_server) ''A'') = Some Offline
   \<and> ffmpegProcesses (run [Create (Some ''Door'') (Some ''rtsp://x'') ''A'' ''t0'',
       Start ''A'' SpawnReturns, Stop ''A'', Start ''A'' SpawnReturns, ProcClose 0]
       init_server) ''A'' = None
   \<and> map signals (procs (run [Create (Some ''Door'') (Some ''rtsp://x'') ''A'' ''t0'',
       Start ''A'' SpawnReturns, Stop ''A'', Start ''A'' SpawnReturns, ProcClose 0]
       init_server)) = [[SIGTERM], []]
   \<and> map closed (procs (run [Create (Some ''Door'') (Some ''rtsp://x'') ''A'' ''t0'',
       Start ''A'' SpawnReturns, Stop ''A'', Start ''A'' SpawnReturns, ProcClose 0]
       init_server)) = [True, False]"
  by (simp add: run_def init_server_def handler_defs)

text \<open>
  When \<^verbatim>\<open>spawn\<close> throws, the start request fails with StartFailure and nothing is
  written. This is the only failure of a start that the handler reports.
\<close>

lemma start_spawn_throws:
  assumes "cameras s ident = Some c" and "ffmpegProcesses s ident = None"
  shows "post_start ident (SpawnThrows msg) s = (Inl (StartFailure msg), s)"
  using assms by (simp add: post_start_def startStream_def)

text \<open>
  C2. A child that cannot be spawned and is reported by its \<^verbatim>\<open>error\<close> event: the
  start request has answered with success before the event, the camera is LIVE and has
  a process entry, and the \<^verbatim>\<open>error\<close> handler leaves both as they are.
\<close>

theorem spawn_error_event_after_start:
  "fst (post_start ''A'' SpawnReturns
          (run [Create (Some ''Door'') (Some ''rtsp://x'') ''A'' ''t0''] init_server))
     = Inr (Started (door\<lparr>status := Live\<rparr>))
   \<and> ffmpegProcesses (run [Create (Some ''Door'') (Some ''rtsp://x'') ''A'' ''t0'',
        Start ''A'' SpawnReturns, ProcError 0] init_server) ''A'' = Some 0
   \<and> map_option status (cameras (run [Create (Some ''Door'') (Some ''rtsp://x'') ''A'' ''t0'',
        Start ''A'' SpawnReturns, ProcError 0] init_server) ''A'') = Some Live"
  by (simp add: door_def run_def init_server_def handler_defs)

text \<open>
  C3, as the specification states it, fails: the stop request of a running camera
  removes the process entry and the client set and sets the status to OFFLINE itself,
  and closes both viewers.
\<close>

theorem stop_tears_down_counterexample:
  "map_option status (cameras door_live ''A'') = Some Live
   \<and> ffmpegProcesses door_live ''A'' = Some 0
   \<and> streamClients door_live ''A'' = Some [0, 1]
   \<and> map_option status (cameras (snd (post_stop ''A'' door_live)) ''A'') = Some Offline
   \<and> ffmpegProcesses (snd (post_stop ''A'' door_live)) ''A'' = None
   \<and> streamClients (snd (post_stop ''A'' door_live)) ''A'' = None
   \<and> map readyState (socks (snd (post_stop ''A'' door_live))) = [CLOSING, CLOSING]"
  by (simp add: door_live_eq door_def handler_defs)

text \<open>
  C3, amended. The stop request of a registered camera with a process entry answers
  with the camera at status OFFLINE, sends SIGTERM to the process, and tears down
  itself: it removes the process entry, calls \<^verbatim>\<open>close\<close> on every socket of the
  camera's client set (none of them is open afterwards), removes the client set, and
  stores the camera with status OFFLINE. The entries of other identifiers are not
  touched. The \<^verbatim>\<open>close\<close> handler of the child does the same teardown again, in any
  state \<open>t\<close>: it removes the process entry of the identifier, sets its camera, if
  there is one, to OFFLINE, calls \<^verbatim>\<open>close\<close> on every socket of its client set (none
  of them is open afterwards) and removes the client set. It sends no signal, and it
  touches no entry of another identifier.
\<close>

theorem stop_tears_down:
  assumes "cameras s ident = Some c" and "ffmpegProcesses s ident = Some p"
  shows "fst (post_stop ident s) = Inr (Stopped (c\<lparr>status := Offline\<rparr>))
    \<and> procs (snd (post_stop ident s)) = kill p SIGTERM (procs s)
    \<and> ffmpegProcesses (snd (post_stop ident s)) = (ffmpegProcesses s)(ident := None)
    \<and> cameras (snd (post_stop ident s)) = (cameras s)(ident \<mapsto> c\<lparr>status := Offline\<rparr>)
    \<and> streamClients (snd (post_stop ident s)) = (streamClients s)(ident := None)
    \<and> socks (snd (post_stop ident s)) =
        (case streamClients s ident of None \<Rightarrow> socks s
         | Some clients \<Rightarrow> close_clients clients (socks s))
    \<and> (\<forall>clients w. streamClients s ident = Some clients \<and> w \<in> set clients
          \<and> w < length (socks s) \<longrightarrow> readyState (socks (snd (post_stop ident s)) ! w) \<noteq> OPEN)
    \<and> ffmpegProcesses (on_close ident t) ident = None
    \<and> streamClients (on_close ident t) ident = None
    \<and> (\<forall>c'. cameras t ident = Some c' \<longrightarrow>
          cameras (on_close ident t) ident = Some (c'\<lparr>status := Offline\<rparr>))
    \<and> ffmpegProcesses (on_close ident t) = (ffmpegProcesses t)(ident := None)
    \<and> streamClients (on_close ident t) = (streamClients t)(ident := None)
    \<and> cameras (on_close ident t) =
        (case cameras t ident of None \<Rightarrow> cameras t
         | Some c' \<Rightarrow> (cameras t)(ident \<mapsto> c'\<lparr>status := Offline\<rparr>))
    \<and> procs (on_close ident t) = procs t
    \<and> socks (on_close ident t) =
        (case streamClients t ident of None \<Rightarrow> socks t
         | Some clients \<Rightarrow> close_clients clients (socks t))
    \<and> (\<forall>clients w. streamClients t ident = Some clients \<and> w \<in> set clients
          \<and> w < length (socks t) \<longrightarrow> readyState (socks (on_close ident t) ! w) \<noteq> OPEN)"
  using assms
  by (simp add: post_stop_def Let_def stopStream_procs stopStream_socks on_close_socks
      close_clients_not_open)

theorem stop_tears_down_witness:
  "cameras door_live ''A'' = Some (door\<lparr>status := Live\<rparr>)
   \<and> ffmpegProcesses door_live ''A'' = Some 0
   \<and> fst (post_stop ''A'' door_live) = Inr (Stopped door)
   \<and> map signals (procs (snd (post_stop ''A'' door_live))) = [[SIGTERM]]
   \<and> ffmpegProcesses (snd (post_stop ''A'' door_live)) ''A'' = None
   \<and> cameras (snd (post_stop ''A'' door_live)) ''A'' = Some door
   \<and> readyState (socks (snd (post_stop ''A'' door_live)) ! 1) \<noteq> OPEN
   \<and> cameras (on_close ''A'' door_live) ''A'' = Some door
   \<and> map readyState (socks door_live) = [OPEN, OPEN]
   \<and> map readyState (socks (on_close ''A'' door_live)) = [CLOSING, CLOSING]
   \<and> map signals (procs (on_close ''A'' door_live)) = [[]]"
proof -
  have c: "cameras door_live ''A'' = Some (door\<lparr>status := Live\<rparr>)"
    by (simp add: door_live_eq)
  have p: "ffmpegProcesses door_live ''A'' = Some 0"
    by (simp add: door_live_eq)
  have cl: "streamClients door_live ''A'' = Some [0, 1] \<and> (1::nat) \<in> set [0, 1]
      \<and> 1 < length (socks door_live)"
    by (simp add: door_live_eq)
  have k: "map signals (kill 0 SIGTERM (procs door_live)) = [[SIGTERM]]"
    by (simp add: door_live_eq kill_def)
  have before: "map readyState (socks door_live) = [OPEN, OPEN]"
    and quiet: "map signals (procs door_live) = [[]]"
    and shut: "map readyState (close_clients [0, 1] (socks door_live)) = [CLOSING, CLOSING]"
    by (simp_all add: door_live_eq close_clients_def ws_close_def)
  note t = stop_tears_down [OF c p, of door_live]
  from t cl have "readyState (socks (snd (post_stop ''A'' door_live)) ! 1) \<noteq> OPEN"
    by blast
  moreover from t cl shut
  have "map readyState (socks (on_close ''A'' door_live)) = [CLOSING, CLOSING]"
    by simp
  moreover from t quiet have "map signals (procs (on_close ''A'' door_live)) = [[]]"
    by simp
  ultimately show ?thesis
    using t c p k before by (simp add: door_def)
qed

text \<open>
  C4. A viewer that is subscribed to camera \<open>A\<close> before its stream is started: the
  start request succeeds and replaces the client set by an empty one. The viewer's
  socket stays open, is in no client set, and the chunk the child emits next is not
  sent to it.
\<close>

theorem start_drops_waiting_subscriber:
  "streamClients door_waiting ''A'' = Some [0]
   \<and> fst (post_start ''A'' SpawnReturns door_waiting) = Inr (Started (door\<lparr>status := Live\<rparr>))
   \<and> streamClients (snd (post_start ''A'' SpawnReturns door_waiting)) ''A'' = Some []
   \<and> map readyState (socks (run [Start ''A'' SpawnReturns, StdoutData 0 ''c1''] door_waiting)) = [OPEN]
   \<and> map sent (socks (run [Start ''A'' SpawnReturns, StdoutData 0 ''c1''] door_waiting)) = [[]]"
  by (simp add: door_waiting_eq door_def run_def handler_defs)

text \<open>
  C5, as the specification states it, fails: deleting a camera that has no stream
  leaves the viewer that waits for it subscribed and its socket open.
\<close>

theorem delete_idle_counterexample:
  "cameras door_waiting ''A'' = Some door
   \<and> ffmpegProcesses door_waiting ''A'' = None
   \<and> streamClients door_waiting ''A'' = Some [0]
   \<and> fst (delete_camera ''A'' door_waiting) = Inr Deleted
   \<and> cameras (snd (delete_camera ''A'' door_waiting)) ''A'' = None
   \<and> streamClients (snd (delete_camera ''A'' door_waiting)) ''A'' = Some [0]
   \<and> map readyState (socks (snd (delete_camera ''A'' door_waiting))) = [OPEN]"
  by (simp add: door_waiting_eq door_def handler_defs)

text \<open>
  C5, amended. Deleting a registered camera succeeds and removes its record. If the
  camera has a process entry, the stream is stopped first, on the state that still
  holds the record: the process is sent SIGTERM, the entry is removed, \<^verbatim>\<open>close\<close> is
  called on every socket of the camera's client set (none of them is open afterwards)
  and the client set is removed. If the camera has no process entry, nothing but the
  record is removed: its client set and the sockets in it are left as they are.
\<close>

theorem delete_registered:
  assumes "cameras s ident = Some c"
  shows "fst (delete_camera ident s) = Inr Deleted
    \<and> cameras (snd (delete_camera ident s)) = (cameras s)(ident := None)
    \<and> (ffmpegProcesses s ident = None \<longrightarrow>
          snd (delete_camera ident s) = s\<lparr>cameras := (cameras s)(ident := None)\<rparr>)
    \<and> (\<forall>p. ffmpegProcesses s ident = Some p \<longrightarrow>
          procs (snd (delete_camera ident s)) = kill p SIGTERM (procs s)
          \<and> ffmpegProcesses (snd (delete_camera ident s)) = (ffmpegProcesses s)(ident := None)
          \<and> streamClients (snd (delete_camera ident s)) = (streamClients s)(ident := None)
          \<and> (\<forall>clients w. streamClients s ident = Some clients \<and> w \<in> set clients
                \<and> w < length (socks s) \<longrightarrow>
                readyState (socks (snd (delete_camera ident s)) ! w) \<noteq> OPEN)
          \<and> snd (delete_camera ident s) =
              (stopStream ident s)\<lparr>cameras := (cameras (stopStream ident s))(ident := None)\<rparr>)"
  using assms
  by (simp add: delete_camera_def Let_def stopStream_procs stopStream_socks
      close_clients_not_open)

theorem delete_registered_witness:
  "cameras door_live ''A'' = Some (door\<lparr>status := Live\<rparr>)
   \<and> ffmpegProcesses door_live ''A'' = Some 0
   \<and> streamClients door_live ''A'' = Some [0, 1]
   \<and> map signals (procs (snd (delete_camera ''A'' door_live))) = [[SIGTERM]]
   \<and> ffmpegProcesses (snd (delete_camera ''A'' door_live)) ''A'' = None
   \<and> streamClients (snd (delete_camera ''A'' door_live)) ''A'' = None
   \<and> cameras (snd (delete_camera ''A'' door_live)) ''A'' = None
   \<and> readyState (socks (snd (delete_camera ''A'' door_live)) ! 0) \<noteq> OPEN
   \<and> readyState (socks (snd (delete_camera ''A'' door_live)) ! 1) \<noteq> OPEN
   \<and> cameras door_waiting ''A'' = Some door
   \<and> ffmpegProcesses door_waiting ''A'' = None
   \<and> snd (delete_camera ''A'' door_waiting) = door_waiting\<lparr>cameras := Map.empty\<rparr>"
proof -
  have c: "cameras door_live ''A'' = Some (door\<lparr>status := Live\<rparr>)"
    and p: "ffmpegProcesses door_live ''A'' = Some 0"
    and cl: "streamClients door_live ''A'' = Some [0, 1]"
    and n: "length (socks door_live) = 2"
    and k: "map signals (kill 0 SIGTERM (procs door_live)) = [[SIGTERM]]"
    by (simp_all add: door_live_eq kill_def)
  have c': "cameras door_waiting ''A'' = Some door"
    and p': "ffmpegProcesses door_waiting ''A'' = None"
    and e': "(cameras door_waiting)(''A'' := None) = Map.empty"
    by (simp_all add: door_waiting_eq)
  note reg = delete_registered [OF c, THEN conjunct2, THEN conjunct1]
  note live = delete_registered [OF c, THEN conjunct2, THEN conjunct2, THEN conjunct2,
      THEN spec, THEN mp, OF p]
  note sig = live [THEN conjunct1]
  note ent = live [THEN conjunct2, THEN conjunct1]
  note sub = live [THEN conjunct2, THEN conjunct2, THEN conjunct1]
  note shut = live [THEN conjunct2, THEN conjunct2, THEN conjunct2, THEN conjunct1,
      rule_format, of "[0, 1]"]
  note idle = delete_registered [OF c', THEN conjunct2, THEN conjunct2, THEN conjunct1,
      THEN mp, OF p']
  have "readyState (socks (snd (delete_camera ''A'' door_live)) ! 0) \<noteq> OPEN"
    by (rule shut) (simp add: cl n)
  moreover have "readyState (socks (snd (delete_camera ''A'' door_live)) ! 1) \<noteq> OPEN"
    by (rule shut) (simp add: cl n)
  moreover from idle e'
  have "snd (delete_camera ''A'' door_waiting) = door_waiting\<lparr>cameras := Map.empty\<rparr>"
    by simp
  ultimately show ?thesis
    using reg sig ent sub c p cl k c' p' by simp
qed

text \<open>
  C6. A start request for a registered camera that has a process entry answers
  AlreadyRunning and leaves the whole state as it is: no child is spawned, and the
  entry, the camera record and every client set are unchanged.
\<close>

theorem start_already_running:
  assumes "cameras s ident = Some c" and "ffmpegProcesses s ident = Some p"
  shows "post_start ident sp s = (Inl AlreadyRunning, s)"
  using assms by (simp add: post_start_def)

theorem start_already_running_witness:
  "cameras door_live ''A'' = Some (door\<lparr>status := Live\<rparr>)
   \<and> ffmpegProcesses door_live ''A'' = Some 0
   \<and> post_start ''A'' SpawnReturns door_live = (Inl AlreadyRunning, door_live)"
proof -
  have c: "cameras door_live ''A'' = Some (door\<lparr>status := Live\<rparr>)"
    and p: "ffmpegProcesses door_live ''A'' = Some 0"
    by (simp_all add: door_live_eq)
  from start_already_running [OF c p, of SpawnReturns] c p show ?thesis by simp
qed

text \<open>
  C7. A stop request for a registered camera that has no process entry answers
  NotRunning and leaves the whole state as it is.
\<close>

theorem stop_not_running:
  assumes "cameras s ident = Some c" and "ffmpegProcesses s ident = None"
  shows "post_stop ident s = (Inl NotRunning, s)"
  using assms by (simp add: post_stop_def)

theorem stop_not_running_witness:
  "cameras door_waiting ''A'' = Some door
   \<and> ffmpegProcesses door_waiting ''A'' = None
   \<and> post_stop ''A'' door_waiting = (Inl NotRunning, door_waiting)"
proof -
  have c: "cameras door_waiting ''A'' = Some door"
    and p: "ffmpegProcesses door_waiting ''A'' = None"
    by (simp_all add: door_waiting_eq)
  from stop_not_running [OF c p] c p show ?thesis by simp
qed




text \<open>
  C9, as the specification states it, fails: the broadcast skips the socket that is
  closing and sends the chunk to the open one, and the closing socket is still in the
  client set afterwards.
\<close>

theorem broadcast_keeps_closing_counterexample:
  "streamClients door_closing ''A'' = Some [0, 1]
   \<and> map readyState (socks door_closing) = [CLOSING, OPEN]
   \<and> map sent (socks (on_data ''A'' ''c1'' door_closing)) = [[], [''c1'']]
   \<and> streamClients (on_data ''A'' ''c1'' door_closing) ''A'' = Some [0, 1]"
  by (simp add: door_closing_eq door_def handler_defs)

text \<open>
  C9, amended. The \<^verbatim>\<open>data\<close> handler sends the chunk once to exactly the sockets of
  the camera's client set whose ready state is OPEN: such a socket has the chunk
  appended to what was sent to it, and every other socket, in the set or not, is
  unchanged. A socket that is not open is skipped and stays in the client set: the
  handler changes no client set, no camera and no process entry. For an identifier
  that has no client set the handler changes nothing at all.
\<close>

theorem broadcast_delivery:
  "(streamClients s ident = None \<longrightarrow> on_data ident chunk s = s)
   \<and> (\<forall>clients. streamClients s ident = Some clients \<and> distinct clients \<longrightarrow>
        length (socks (on_data ident chunk s)) = length (socks s)
        \<and> (\<forall>w < length (socks s).
              socks (on_data ident chunk s) ! w =
                (if w \<in> set clients \<and> readyState (socks s ! w) = OPEN
                 then (socks s ! w)\<lparr>sent := sent (socks s ! w) @ [chunk]\<rparr>
                 else socks s ! w))
        \<and> streamClients (on_data ident chunk s) = streamClients s
        \<and> cameras (on_data ident chunk s) = cameras s
        \<and> ffmpegProcesses (on_data ident chunk s) = ffmpegProcesses s
        \<and> procs (on_data ident chunk s) = procs s)"
  by (simp add: on_data_def broadcast_nth broadcast_length)

text \<open>
  The two viewers of \<open>door_closing\<close>, and a chunk the child still writes after its
  stream was stopped, when the camera has no client set.
\<close>

theorem broadcast_delivery_witness:
  "streamClients door_closing ''A'' = Some [0, 1] \<and> distinct [0, 1 :: nat]
   \<and> map readyState (socks door_closing) = [CLOSING, OPEN]
   \<and> sent (socks (on_data ''A'' ''c1'' door_closing) ! 0) = []
   \<and> sent (socks (on_data ''A'' ''c1'' door_closing) ! 1) = [''c1'']
   \<and> streamClients (on_data ''A'' ''c1'' door_closing) ''A'' = Some [0, 1]
   \<and> streamClients (step (Stop ''A'') door_live) ''A'' = None
   \<and> step (StdoutData 0 ''c1'') (step (Stop ''A'') door_live) = step (Stop ''A'') door_live"
proof -
  have cl: "streamClients door_closing ''A'' = Some [0, 1] \<and> distinct [0, 1 :: nat]"
    by (simp add: door_closing_eq)
  have ss: "socks door_closing = [\<lparr>readyState = CLOSING, sent = [], wsCamera = Some ''A''\<rparr>,
              \<lparr>readyState = OPEN, sent = [], wsCamera = Some ''A''\<rparr>]"
    by (simp add: door_closing_eq)
  have none: "streamClients (step (Stop ''A'') door_live) ''A'' = None"
    by (simp add: post_stop_def Let_def door_live_eq split: option.splits)
  have child: "0 < length (procs (step (Stop ''A'') door_live))
      \<and> \<not> closed (procs (step (Stop ''A'') door_live) ! 0)
      \<and> boundCamera (procs (step (Stop ''A'') door_live) ! 0) = ''A''"
    by (simp add: door_live_eq handler_defs)
  note b = broadcast_delivery [of door_closing "''A''" "''c1''", THEN conjunct2,
      THEN spec, THEN mp, OF cl]
  note each = b [THEN conjunct2, THEN conjunct1, rule_format]
  note subs = b [THEN conjunct2, THEN conjunct2, THEN conjunct1]
  note quiet = broadcast_delivery [of "step (Stop ''A'') door_live" "''A''" "''c1''",
      THEN conjunct1, THEN mp, OF none]
  have "sent (socks (on_data ''A'' ''c1'' door_closing) ! 0) = []"
    using each [of 0] by (simp add: ss)
  moreover have "sent (socks (on_data ''A'' ''c1'' door_closing) ! 1) = [''c1'']"
    using each [of 1] by (simp add: ss)
  moreover have "step (StdoutData 0 ''c1'') (step (Stop ''A'') door_live)
      = step (Stop ''A'') door_live"
    using quiet child by (simp del: step.simps(4) add: step.simps(8))
  ultimately show ?thesis using subs cl ss none by simp
qed

text \<open>
  C10. For an identifier with no camera in the registry, the start request and the
  stop request both answer NotFound and leave the state as it is, whatever the
  process map holds: the registry is looked up first.
\<close>

theorem not_found_first:
  assumes "cameras s ident = None"
  shows "post_start ident sp s = (Inl NotFound, s) \<and> post_stop ident s = (Inl NotFound, s)"
  using assms by (simp add: post_start_def post_stop_def)

text \<open>The state \<open>door_live\<close> with its registry emptied: the process entry is there.\<close>

theorem not_found_first_witness:
  "cameras (door_live\<lparr>cameras := Map.empty\<rparr>) ''A'' = None
   \<and> ffmpegProcesses (door_live\<lparr>cameras := Map.empty\<rparr>) ''A'' = Some 0
   \<and> post_start ''A'' SpawnReturns (door_live\<lparr>cameras := Map.empty\<rparr>)
       = (Inl NotFound, door_live\<lparr>cameras := Map.empty\<rparr>)
   \<and> post_stop ''A'' (door_live\<lparr>cameras := Map.empty\<rparr>)
       = (Inl NotFound, door_live\<lparr>cameras := Map.empty\<rparr>)"
proof -
  have c: "cameras (door_live\<lparr>cameras := Map.empty\<rparr>) ''A'' = None"
    by simp
  have p: "ffmpegProcesses (door_live\<lparr>cameras := Map.empty\<rparr>) ''A'' = Some 0"
    by (simp add: door_live_eq)
  from not_found_first [OF c, of SpawnReturns] c p show ?thesis by simp
qed

end
